theory Spec2Isabelle
  imports Main "HOL-Library.Sublist" "HOL-Library.Char_ord" "HOL-Library.List_Lexorder"
begin

section \<open>The CRISPIN command-line launcher (\<^verbatim>\<open>src/__main__.py\<close>)\<close>

text \<open>
  The module defines two click commands, \<^verbatim>\<open>run\<close> and \<^verbatim>\<open>init\<close>, registered on the
  group \<^verbatim>\<open>cli\<close>. Both act on the outside world only: they query the filesystem,
  call helpers of \<^verbatim>\<open>util.py\<close> and may raise. The embedding makes these effects
  explicit: every function returns the list of calls it made (an \<open>event list\<close>) and how
  the Python call ended (an \<open>outcome\<close>).
\<close>

subsection \<open>Errors, outcomes and the process exit status\<close>

datatype error =
    FileNotFoundError string
  | FileExistsError string
  | NotADirectoryError string
  | ValueError string
  | LaunchError "string list"

text \<open>
  How a Python call that yields no value ends: it returns, an exception leaves it, or
  the process is terminated with a status (\<^verbatim>\<open>sys.exit\<close>).
\<close>

datatype outcome = Returned | Raised error | SysExit int

text \<open>
  The exit status of the process whose command ended with the given outcome. A command
  that returns makes click exit with status 0; none of the exceptions of \<open>error\<close> is
  handled by click or by the module, so the interpreter prints the traceback and exits
  with status 1; an exit request is truncated to eight bits by the operating system.
\<close>

fun exit_status :: "outcome \<Rightarrow> int" where
  "exit_status Returned = 0"
| "exit_status (Raised e) = 1"
| "exit_status (SysExit n) = n mod 256"

text \<open>
  The calls to the outside world that the module makes: \<^verbatim>\<open>os.path.exists\<close>,
  \<^verbatim>\<open>os.mkdir\<close>, the launcher \<^verbatim>\<open>run_nextflow\<close> (with its keyword arguments
  \<^verbatim>\<open>nextfile_path\<close>, \<^verbatim>\<open>mode\<close>, \<^verbatim>\<open>nextflow_args\<close>), and the child process a
  launcher starts (its argument vector).
\<close>

datatype event =
    OsPathExists string
  | OsMkdir string
  | RunNextflow string string "string list"
  | Spawn "string list"

fun is_launch :: "event \<Rightarrow> bool" where
  "is_launch (RunNextflow p m as) = True"
| "is_launch (Spawn argv) = True"
| "is_launch (OsPathExists p) = False"
| "is_launch (OsMkdir p) = False"

subsection \<open>The command \<^verbatim>\<open>run\<close>\<close>

text \<open>
  A launcher is what \<^verbatim>\<open>run_nextflow\<close> does when called with \<^verbatim>\<open>nextfile_path\<close>,
  \<^verbatim>\<open>mode\<close> and \<^verbatim>\<open>nextflow_args\<close>: the events it causes and its outcome. The
  filesystem is what \<^verbatim>\<open>os.path.exists\<close> answers for a path string; \<^verbatim>\<open>run\<close> only
  reads it.
\<close>

type_synonym launcher = "string \<Rightarrow> string \<Rightarrow> string list \<Rightarrow> event list \<times> outcome"

text \<open>
  \<^verbatim>\<open>run(main_path, _mode, **kwargs)\<close>, lines 96 to 111. The keyword arguments hold
  exactly \<^verbatim>\<open>nextflow_args\<close>, the only parameter \<^verbatim>\<open>common_options\<close> declares. The call
  of the launcher is the last statement, so its outcome is the outcome of \<^verbatim>\<open>run\<close>.
\<close>

definition run :: "launcher \<Rightarrow> (string \<Rightarrow> bool) \<Rightarrow> string \<Rightarrow> string \<Rightarrow> string list
    \<Rightarrow> event list \<times> outcome" where
  "run run_nextflow path_exists main_path mode nextflow_args =
     (if main_path \<noteq> ''CCBR/CRISPIN'' then
        (if \<not> path_exists main_path then
           ([OsPathExists main_path],
            Raised (FileNotFoundError
              (''Path to the crispin main.nf file not found: '' @ main_path)))
         else
           (let (evs, out) = run_nextflow main_path mode nextflow_args
            in (OsPathExists main_path # RunNextflow main_path mode nextflow_args # evs, out)))
      else
        (let (evs, out) = run_nextflow main_path mode nextflow_args
         in (RunNextflow main_path mode nextflow_args # evs, out)))"

text \<open>
  What the command line gives to \<^verbatim>\<open>run\<close>: the value of \<^verbatim>\<open>--main\<close> and of
  \<^verbatim>\<open>--mode\<close> when the user wrote them, and the tokens bound to the variadic argument
  \<^verbatim>\<open>nextflow_args\<close>.
\<close>

record run_options =
  main_opt :: "string option"
  mode_opt :: "string option"
  nextflow_args :: "string list"

text \<open>
  The declared defaults (lines 84 and 92). The default of \<^verbatim>\<open>--main\<close> is
  \<^verbatim>\<open>nek_base(os.path.join("main.nf"))\<close>; \<^verbatim>\<open>nek_base\<close> belongs to \<^verbatim>\<open>util.py\<close>, so
  its value is the parameter \<open>nek_main\<close>.
\<close>

definition main_path_of :: "string \<Rightarrow> run_options \<Rightarrow> string" where
  "main_path_of nek_main opts = (case main_opt opts of None \<Rightarrow> nek_main | Some p \<Rightarrow> p)"

definition mode_of :: "run_options \<Rightarrow> string" where
  "mode_of opts = (case mode_opt opts of None \<Rightarrow> ''local'' | Some m \<Rightarrow> m)"

definition run_cli :: "string \<Rightarrow> launcher \<Rightarrow> (string \<Rightarrow> bool) \<Rightarrow> run_options
    \<Rightarrow> event list \<times> outcome" where
  "run_cli nek_main run_nextflow path_exists opts =
     run run_nextflow path_exists (main_path_of nek_main opts) (mode_of opts)
       (nextflow_args opts)"

subsection \<open>The launcher \<^verbatim>\<open>run_nextflow\<close>\<close>

text \<open>
  What the operating system reports for the child process started with an argument
  vector: it ran and exited with a status, or it could not be started.
\<close>

datatype child = Exited int | NotStarted

text \<open>
  Modelled from the spec: \<^verbatim>\<open>run_nextflow\<close> of \<^verbatim>\<open>util.py\<close>, which is not among the
  sources. The spec (sections 4.2 and 6) has the engine invoked with
  \<^verbatim>\<open>run <entryPath> -profile <profileName> <passthroughArgs...>\<close>, the pass-through
  arguments verbatim and in order.
\<close>

definition nextflow_command :: "string \<Rightarrow> string \<Rightarrow> string list \<Rightarrow> string list" where
  "nextflow_command nextfile_path profile_name args =
     ''run'' # nextfile_path # ''-profile'' # profile_name # args"

text \<open>
  Modelled from the spec: \<^verbatim>\<open>run_nextflow\<close> of \<^verbatim>\<open>util.py\<close>, which is not among the
  sources. The mapping from the mode to the profile name is fixed but not written in the
  spec, and the spec leaves open whether an unsupported mode is rejected or mapped to a
  default: it is the parameter \<open>profile\<close>, with \<open>None\<close> for a rejected mode. The
  command is started as a child process (the parameter \<open>engine\<close> is what the operating
  system then reports); a child that cannot be started is a launch error; otherwise the
  child's exit status becomes this process's own exit status. Since \<^verbatim>\<open>run\<close> does not
  use what \<^verbatim>\<open>run_nextflow\<close> returns, the status is handed on by ending the process
  with it.
\<close>

definition run_nextflow :: "(string \<Rightarrow> string option) \<Rightarrow> (string list \<Rightarrow> child) \<Rightarrow> launcher" where
  "run_nextflow profile engine nextfile_path mode args =
     (case profile mode of
        None \<Rightarrow> ([], Raised (ValueError mode))
      | Some profile_name \<Rightarrow>
          (let argv = nextflow_command nextfile_path profile_name args
           in case engine argv of
                NotStarted \<Rightarrow> ([Spawn argv], Raised (LaunchError argv))
              | Exited code \<Rightarrow> ([Spawn argv], SysExit code)))"

subsection \<open>The working directory\<close>

text \<open>
  \<^verbatim>\<open>init\<close> writes into the current working directory. A directory tree maps a path,
  given by its components relative to the root of the tree, to what is there: a file with
  its content or a directory.
\<close>

datatype node = File string | Dir

type_synonym tree = "string list \<Rightarrow> node option"

text \<open>The components of a relative path string: \<^verbatim>\<open>conf/\<close> has the one component \<^verbatim>\<open>conf\<close>.\<close>

fun split_slash :: "string \<Rightarrow> string \<Rightarrow> string list" where
  "split_slash cur [] = (if cur = [] then [] else [cur])"
| "split_slash cur (c # cs) =
     (if c = CHR ''/''
      then (if cur = [] then [] else [cur]) @ split_slash [] cs
      else split_slash (cur @ [c]) cs)"

definition components :: "string \<Rightarrow> string list" where
  "components p = split_slash [] p"

definition ends_with_slash :: "string \<Rightarrow> bool" where
  "ends_with_slash p = (case rev p of [] \<Rightarrow> False | c # cs \<Rightarrow> c = CHR ''/'')"

text \<open>
  \<^verbatim>\<open>os.path.exists\<close> on a relative path: something is there, and a path written with
  a trailing slash names a directory only.
\<close>

definition os_path_exists :: "tree \<Rightarrow> string \<Rightarrow> bool" where
  "os_path_exists t p =
     (case t (components p) of
        None \<Rightarrow> False
      | Some Dir \<Rightarrow> True
      | Some (File content) \<Rightarrow> (if ends_with_slash p then False else True))"

text \<open>
  \<^verbatim>\<open>os.mkdir\<close> on a relative path: it raises when something is there already, or
  when the parent is missing or is a file; otherwise it makes an empty directory.
\<close>

definition os_mkdir :: "tree \<Rightarrow> string \<Rightarrow> error + tree" where
  "os_mkdir t p =
     (let cs = components p in
      if cs = [] then Inl (FileExistsError p)
      else if t cs \<noteq> None then Inl (FileExistsError p)
      else if butlast cs = [] then Inr (t(cs \<mapsto> Dir))
      else (case t (butlast cs) of
              None \<Rightarrow> Inl (FileNotFoundError p)
            | Some (File content) \<Rightarrow> Inl (NotADirectoryError p)
            | Some Dir \<Rightarrow> Inr (t(cs \<mapsto> Dir))))"

subsection \<open>The command \<^verbatim>\<open>init\<close>\<close>

text \<open>
  Modelled from the spec: \<^verbatim>\<open>copy_config\<close> of \<^verbatim>\<open>util.py\<close>, which is not among the
  sources. The spec (section 4.1) has each template path copied, a file or a directory
  with all it holds, from the bundled install location (the tree \<open>bundle\<close>) into the
  working directory at the same relative path; a template that is missing in the bundle
  is a filesystem error, and what was copied before stays (no rollback). A target that
  exists already is written over (section 8: a second \<^verbatim>\<open>init\<close> does not fail because
  the targets exist). Permissions are not modelled: every target can be written.
\<close>

definition copy_path :: "tree \<Rightarrow> string list \<Rightarrow> tree \<Rightarrow> tree" where
  "copy_path bundle cs t =
     (\<lambda>q. if prefix cs q then (case bundle q of None \<Rightarrow> t q | Some n \<Rightarrow> Some n) else t q)"

fun copy_config :: "tree \<Rightarrow> string list \<Rightarrow> tree \<Rightarrow> tree \<times> outcome" where
  "copy_config bundle [] t = (t, Returned)"
| "copy_config bundle (p # ps) t =
     (case bundle (components p) of
        None \<Rightarrow> (t, Raised (FileNotFoundError p))
      | Some n \<Rightarrow> copy_config bundle ps (copy_path bundle (components p) t))"

text \<open>
  \<^verbatim>\<open>init(**kwargs)\<close>, lines 115 to 120: the three template paths are copied, then the
  directory \<^verbatim>\<open>log/\<close> is made unless \<^verbatim>\<open>os.path.exists\<close> finds it. The result is the
  calls made to \<^verbatim>\<open>os\<close>, the working directory afterwards, and the outcome.
\<close>

definition init :: "tree \<Rightarrow> tree \<Rightarrow> event list \<times> tree \<times> outcome" where
  "init bundle t =
     (let paths = [''nextflow.config'', ''conf/'', ''assets/''] in
      case copy_config bundle paths t of
        (t1, Returned) \<Rightarrow>
          (if \<not> os_path_exists t1 ''log/'' then
             (case os_mkdir t1 ''log/'' of
                Inl e \<Rightarrow> ([OsPathExists ''log/'', OsMkdir ''log/''], t1, Raised e)
              | Inr t2 \<Rightarrow> ([OsPathExists ''log/'', OsMkdir ''log/''], t2, Returned))
           else ([OsPathExists ''log/''], t1, Returned))
      | (t1, out) \<Rightarrow> ([], t1, out))"

subsection \<open>The command group \<^verbatim>\<open>cli\<close>\<close>

text \<open>
  A click command, as far as the dispatcher uses it: its name (the name of the decorated
  function) and the first line of its help (the docstring).
\<close>

record command =
  cmd_name :: string
  cmd_help :: string

definition run_command :: command where
  "run_command = \<lparr>cmd_name = ''run'', cmd_help = ''Run the workflow''\<rparr>"

definition init_command :: command where
  "init_command = \<lparr>cmd_name = ''init'', cmd_help =
     ''Initialize the working directory by copying the system default config files''\<rparr>"

text \<open>
  A group keeps its commands in a Python dict, which keeps the keys in the order of their
  first insertion: an association list, where setting a key that is present replaces the
  value in place.
\<close>

type_synonym group = "(string \<times> command) list"

fun dict_set :: "string \<Rightarrow> command \<Rightarrow> group \<Rightarrow> group" where
  "dict_set k v [] = [(k, v)]"
| "dict_set k v ((k', v') # kvs) =
     (if k' = k then (k, v) # kvs else (k', v') # dict_set k v kvs)"

text \<open>\<^verbatim>\<open>cli.add_command(cmd)\<close>: the command is stored under its own name.\<close>

definition add_command :: "command \<Rightarrow> group \<Rightarrow> group" where
  "add_command cmd g = dict_set (cmd_name cmd) cmd g"

text \<open>Lines 123 and 124: \<^verbatim>\<open>run\<close> is registered first, then \<^verbatim>\<open>init\<close>.\<close>

definition cli :: group where
  "cli = add_command init_command (add_command run_command [])"

text \<open>
  Modelled from the spec: the class \<^verbatim>\<open>OrderedCommands\<close> of \<^verbatim>\<open>util.py\<close>, which is
  not among the sources and which \<^verbatim>\<open>cli\<close> is built with (line 31). The spec
  (section 4.3) has the subcommands listed in a stable, chosen order that is not the
  alphabetical one: the names are listed as the dict holds them.
\<close>

definition list_commands :: "group \<Rightarrow> string list" where
  "list_commands g = map fst g"

text \<open>The alphabetical listing, which a click group gives when nothing overrides it.\<close>

definition list_commands_sorted :: "group \<Rightarrow> string list" where
  "list_commands_sorted g = sort (map fst g)"

section \<open>Properties of \<^verbatim>\<open>run\<close>\<close>

text \<open>
  C1. An entry path, given with \<^verbatim>\<open>--main\<close> or the default, that is not the string
  \<^verbatim>\<open>CCBR/CRISPIN\<close> and does not exist: \<^verbatim>\<open>run\<close> raises \<^verbatim>\<open>FileNotFoundError\<close> with a
  message that ends with the path, the process exits with a non-zero status, and the only
  call made is the existence check: the launcher is not called and no process is started,
  whatever the launcher is.
\<close>

theorem run_missing_path_rejected:
  assumes "main_path_of nek_main opts \<noteq> ''CCBR/CRISPIN''"
    and "\<not> path_exists (main_path_of nek_main opts)"
  shows "run_cli nek_main launch path_exists opts =
           ([OsPathExists (main_path_of nek_main opts)],
            Raised (FileNotFoundError
              (''Path to the crispin main.nf file not found: '' @ main_path_of nek_main opts)))
       \<and> exit_status (snd (run_cli nek_main launch path_exists opts)) \<noteq> 0
       \<and> \<not> list_ex is_launch (fst (run_cli nek_main launch path_exists opts))"
  using assms by (simp add: run_cli_def run_def)

theorem run_missing_path_rejected_witness:
  "run_cli ''/opt/crispin/main.nf''
       (\<lambda>p m as. ([Spawn [''run'', p]], SysExit 0)) (\<lambda>p. False)
       \<lparr>main_opt = Some ''nowhere/main.nf'', mode_opt = None, nextflow_args = [''-resume'']\<rparr>
     = ([OsPathExists ''nowhere/main.nf''],
        Raised (FileNotFoundError
          ''Path to the crispin main.nf file not found: nowhere/main.nf''))
   \<and> run_cli ''/opt/crispin/main.nf''
       (\<lambda>p m as. ([Spawn [''run'', p]], SysExit 0)) (\<lambda>p. False)
       \<lparr>main_opt = None, mode_opt = None, nextflow_args = []\<rparr>
     = ([OsPathExists ''/opt/crispin/main.nf''],
        Raised (FileNotFoundError
          ''Path to the crispin main.nf file not found: /opt/crispin/main.nf''))"
  using run_missing_path_rejected [of "''/opt/crispin/main.nf''"
      "\<lparr>main_opt = Some ''nowhere/main.nf'', mode_opt = None, nextflow_args = [''-resume'']\<rparr>"
      "\<lambda>p. False" "\<lambda>p m as. ([Spawn [''run'', p]], SysExit 0)"]
    run_missing_path_rejected [of "''/opt/crispin/main.nf''"
      "\<lparr>main_opt = None, mode_opt = None, nextflow_args = []\<rparr>"
      "\<lambda>p. False" "\<lambda>p m as. ([Spawn [''run'', p]], SysExit 0)"]
  by (simp add: main_path_of_def)

text \<open>
  C2. When \<^verbatim>\<open>--main\<close> is the string \<^verbatim>\<open>CCBR/CRISPIN\<close>, the first and only call
  that \<^verbatim>\<open>run\<close> itself makes is the call of the launcher, with the string unchanged as
  \<^verbatim>\<open>nextfile_path\<close>: no existence check comes before it, and the answer of the
  filesystem does not matter.
\<close>

theorem run_sentinel_not_checked:
  "run_cli nek_main launch path_exists (opts\<lparr>main_opt := Some ''CCBR/CRISPIN''\<rparr>) =
     (RunNextflow ''CCBR/CRISPIN'' (mode_of opts) (nextflow_args opts)
        # fst (launch ''CCBR/CRISPIN'' (mode_of opts) (nextflow_args opts)),
      snd (launch ''CCBR/CRISPIN'' (mode_of opts) (nextflow_args opts)))"
  by (simp add: run_cli_def run_def main_path_of_def mode_of_def split: prod.splits)

theorem run_sentinel_not_checked_witness:
  "run_cli ''/opt/crispin/main.nf'' (\<lambda>p m as. ([Spawn (p # m # as)], SysExit 0)) (\<lambda>p. False)
       \<lparr>main_opt = Some ''CCBR/CRISPIN'', mode_opt = Some ''slurm'',
        nextflow_args = [''-r'', ''v0.1.0'']\<rparr>
     = ([RunNextflow ''CCBR/CRISPIN'' ''slurm'' [''-r'', ''v0.1.0''],
         Spawn [''CCBR/CRISPIN'', ''slurm'', ''-r'', ''v0.1.0'']], SysExit 0)"
  using run_sentinel_not_checked [of "''/opt/crispin/main.nf''"
      "\<lambda>p m as. ([Spawn (p # m # as)], SysExit 0)" "\<lambda>p. False"
      "\<lparr>main_opt = Some ''CCBR/CRISPIN'', mode_opt = Some ''slurm'',
        nextflow_args = [''-r'', ''v0.1.0'']\<rparr>"]
  by (simp add: mode_of_def)

text \<open>
  C8. The test for the repository string is equality of strings: the first call of
  \<^verbatim>\<open>run\<close> is the existence check of \<^verbatim>\<open>main_path\<close> exactly when \<^verbatim>\<open>main_path\<close> is
  not \<^verbatim>\<open>CCBR/CRISPIN\<close>, and every other string, \<^verbatim>\<open>ccbr/crispin\<close> among them, is
  rejected when the filesystem does not have it.
\<close>

theorem run_sentinel_exact:
  "(hd (fst (run launch path_exists main_path mode args)) = OsPathExists main_path)
      = (main_path \<noteq> ''CCBR/CRISPIN'')
   \<and> (main_path \<noteq> ''CCBR/CRISPIN'' \<and> \<not> path_exists main_path \<longrightarrow>
        run launch path_exists main_path mode args =
          ([OsPathExists main_path],
           Raised (FileNotFoundError
             (''Path to the crispin main.nf file not found: '' @ main_path))))"
  by (simp add: run_def split: prod.splits)

theorem run_sentinel_exact_witness:
  "hd (fst (run (\<lambda>p m as. ([], Returned)) (\<lambda>p. False) ''ccbr/crispin'' ''local'' []))
     = OsPathExists ''ccbr/crispin''
   \<and> run (\<lambda>p m as. ([], Returned)) (\<lambda>p. False) ''ccbr/crispin'' ''local'' [] =
       ([OsPathExists ''ccbr/crispin''],
        Raised (FileNotFoundError
          ''Path to the crispin main.nf file not found: ccbr/crispin''))"
  using run_sentinel_exact [of "\<lambda>p m as. ([], Returned)" "\<lambda>p. False" "''ccbr/crispin''"
      "''local''" "[]"]
  by simp

text \<open>
  C9. Without \<^verbatim>\<open>--mode\<close>, \<^verbatim>\<open>run\<close> does what it does with \<^verbatim>\<open>--mode local\<close>; and
  when the entry path passes, the launcher is called with the mode \<^verbatim>\<open>local\<close> and its
  outcome is the outcome of \<^verbatim>\<open>run\<close>.
\<close>

theorem run_default_mode_local:
  "run_cli nek_main launch path_exists (opts\<lparr>mode_opt := None\<rparr>) =
     run_cli nek_main launch path_exists (opts\<lparr>mode_opt := Some ''local''\<rparr>)
   \<and> (main_path_of nek_main opts = ''CCBR/CRISPIN'' \<or> path_exists (main_path_of nek_main opts) \<longrightarrow>
        snd (run_cli nek_main launch path_exists (opts\<lparr>mode_opt := None\<rparr>)) =
          snd (launch (main_path_of nek_main opts) ''local'' (nextflow_args opts))
        \<and> RunNextflow (main_path_of nek_main opts) ''local'' (nextflow_args opts)
            \<in> set (fst (run_cli nek_main launch path_exists (opts\<lparr>mode_opt := None\<rparr>))))"
  by (auto simp add: run_cli_def run_def main_path_of_def mode_of_def split: prod.splits)

theorem run_default_mode_local_witness:
  "run_cli ''/opt/crispin/main.nf'' (\<lambda>p m as. ([], if m = ''local'' then SysExit 7 else Returned))
       (\<lambda>p. True) \<lparr>main_opt = None, mode_opt = None, nextflow_args = [''-resume'']\<rparr>
     = run_cli ''/opt/crispin/main.nf'' (\<lambda>p m as. ([], if m = ''local'' then SysExit 7 else Returned))
       (\<lambda>p. True) \<lparr>main_opt = None, mode_opt = Some ''local'', nextflow_args = [''-resume'']\<rparr>
   \<and> snd (run_cli ''/opt/crispin/main.nf''
            (\<lambda>p m as. ([], if m = ''local'' then SysExit 7 else Returned))
            (\<lambda>p. True) \<lparr>main_opt = None, mode_opt = None, nextflow_args = [''-resume'']\<rparr>)
       = SysExit 7
   \<and> RunNextflow ''/opt/crispin/main.nf'' ''local'' [''-resume'']
       \<in> set (fst (run_cli ''/opt/crispin/main.nf''
            (\<lambda>p m as. ([], if m = ''local'' then SysExit 7 else Returned))
            (\<lambda>p. True) \<lparr>main_opt = None, mode_opt = None, nextflow_args = [''-resume'']\<rparr>))"
  using run_default_mode_local [of "''/opt/crispin/main.nf''"
      "\<lambda>p m as. ([], if m = ''local'' then SysExit 7 else Returned)" "\<lambda>p. True"
      "\<lparr>main_opt = None, mode_opt = None, nextflow_args = [''-resume'']\<rparr>"]
  by (auto simp add: main_path_of_def)

text \<open>
  C3. When the entry path passes, the outcome of \<^verbatim>\<open>run\<close> is the outcome of the
  launcher, whatever the launcher is. With the launcher of the spec, when the mode has a
  profile and the engine starts and exits with a status, one process is started and the
  exit status of the program is that status: a status 3 of the engine is a status 3 of
  the program.
\<close>

theorem run_exit_status_is_child_status:
  assumes "main_path = ''CCBR/CRISPIN'' \<or> path_exists main_path"
    and "profile mode = Some profile_name"
    and "engine (nextflow_command main_path profile_name args) = Exited code"
    and "0 \<le> code" and "code < 256"
  shows "snd (run launch path_exists main_path mode args) = snd (launch main_path mode args)
       \<and> exit_status (snd (run (run_nextflow profile engine) path_exists main_path mode args))
           = code
       \<and> filter is_launch (fst (run (run_nextflow profile engine) path_exists main_path mode args))
           = [RunNextflow main_path mode args,
              Spawn (nextflow_command main_path profile_name args)]"
  using assms by (auto simp add: run_def run_nextflow_def split: prod.splits)

theorem run_exit_status_is_child_status_witness:
  "exit_status (snd (run (run_nextflow (\<lambda>m. Some m) (\<lambda>argv. Exited 3)) (\<lambda>p. True)
      ''main.nf'' ''local'' [''-resume''])) = 3
   \<and> filter is_launch (fst (run (run_nextflow (\<lambda>m. Some m) (\<lambda>argv. Exited 3)) (\<lambda>p. True)
      ''main.nf'' ''local'' [''-resume'']))
     = [RunNextflow ''main.nf'' ''local'' [''-resume''],
        Spawn [''run'', ''main.nf'', ''-profile'', ''local'', ''-resume'']]"
  using run_exit_status_is_child_status [of "''main.nf''" "\<lambda>p. True" "\<lambda>m. Some m" "''local''"
      "''local''" "\<lambda>argv. Exited 3" "[''-resume'']" 3
      "\<lambda>p m as. ([], Returned)"]
  by (simp add: nextflow_command_def)

text \<open>
  C4. When the entry path passes and the mode has a profile, the launcher is called with
  the pass-through arguments as \<^verbatim>\<open>run\<close> got them, one process is started, and its
  argument vector is four tokens followed by exactly the pass-through arguments: the same
  tokens in the same order.
\<close>

theorem run_passthrough_args_in_order:
  assumes "main_path = ''CCBR/CRISPIN'' \<or> path_exists main_path"
    and "profile mode = Some profile_name"
  shows "RunNextflow main_path mode args
           \<in> set (fst (run (run_nextflow profile engine) path_exists main_path mode args))
       \<and> (\<exists>argv. Spawn argv
             \<in> set (fst (run (run_nextflow profile engine) path_exists main_path mode args)))
       \<and> (\<forall>argv. Spawn argv
             \<in> set (fst (run (run_nextflow profile engine) path_exists main_path mode args))
           \<longrightarrow> drop 4 argv = args \<and> suffix args argv)"
  using assms
  by (auto simp add: run_def run_nextflow_def nextflow_command_def Let_def suffix_def
      split: child.splits)

theorem run_passthrough_args_in_order_witness:
  "Spawn [''run'', ''main.nf'', ''-profile'', ''slurm'', ''-resume'', ''--input'', ''a b.csv'']
     \<in> set (fst (run (run_nextflow (\<lambda>m. Some m) (\<lambda>argv. Exited 0)) (\<lambda>p. True)
          ''main.nf'' ''slurm'' [''-resume'', ''--input'', ''a b.csv'']))
   \<and> drop 4 [''run'', ''main.nf'', ''-profile'', ''slurm'', ''-resume'', ''--input'', ''a b.csv'']
       = [''-resume'', ''--input'', ''a b.csv'']"
proof -
  have spawned: "Spawn [''run'', ''main.nf'', ''-profile'', ''slurm'', ''-resume'', ''--input'', ''a b.csv'']
     \<in> set (fst (run (run_nextflow (\<lambda>m. Some m) (\<lambda>argv. Exited 0)) (\<lambda>p. True)
          ''main.nf'' ''slurm'' [''-resume'', ''--input'', ''a b.csv'']))"
    by (simp add: run_def run_nextflow_def nextflow_command_def)
  from run_passthrough_args_in_order [of "''main.nf''" "\<lambda>p. True" "\<lambda>m. Some m" "''slurm''"
      "''slurm''" "[''-resume'', ''--input'', ''a b.csv'']" "\<lambda>argv. Exited 0"] spawned
  show ?thesis by blast
qed

section \<open>Properties of \<^verbatim>\<open>init\<close>\<close>

lemma components_templates:
  "components ''nextflow.config'' = [''nextflow.config'']"
  "components ''conf/'' = [''conf'']"
  "components ''assets/'' = [''assets'']"
  "components ''log/'' = [''log'']"
  by (simp_all add: components_def)

lemma copy_path_outside: "\<not> prefix cs q \<Longrightarrow> copy_path bundle cs t q = t q"
  by (simp add: copy_path_def)

lemma copy_path_keeps: "t q \<noteq> None \<Longrightarrow> copy_path bundle cs t q \<noteq> None"
  by (simp add: copy_path_def split: option.splits)

lemma copy_path_root: "bundle cs = Some n \<Longrightarrow> copy_path bundle cs t cs = Some n"
  by (simp add: copy_path_def)

lemma copy_config_outside:
  "\<forall>p \<in> set ps. \<not> prefix (components p) q \<Longrightarrow> fst (copy_config bundle ps t) q = t q"
proof (induction ps arbitrary: t)
  case Nil
  show ?case by simp
next
  case (Cons p ps)
  show ?case
  proof (cases "bundle (components p)")
    case None
    then show ?thesis by simp
  next
    case (Some n)
    from Cons.prems have "fst (copy_config bundle ps (copy_path bundle (components p) t)) q
        = copy_path bundle (components p) t q"
      by (intro Cons.IH) simp
    with Some Cons.prems show ?thesis by (simp add: copy_path_outside)
  qed
qed

lemma copy_config_keeps:
  "t q \<noteq> None \<Longrightarrow> fst (copy_config bundle ps t) q \<noteq> None"
proof (induction ps arbitrary: t)
  case Nil
  then show ?case by simp
next
  case (Cons p ps)
  show ?case
  proof (cases "bundle (components p)")
    case None
    with Cons.prems show ?thesis by simp
  next
    case (Some n)
    from Cons.prems have "copy_path bundle (components p) t q \<noteq> None"
      by (rule copy_path_keeps)
    then have "fst (copy_config bundle ps (copy_path bundle (components p) t)) q \<noteq> None"
      by (rule Cons.IH)
    with Some show ?thesis by simp
  qed
qed

lemma copy_config_Returned:
  "(snd (copy_config bundle ps t) = Returned) = (\<forall>p \<in> set ps. bundle (components p) \<noteq> None)"
  by (induction ps arbitrary: t) (auto split: option.splits)

lemma copy_config_roots:
  "snd (copy_config bundle ps t) = Returned \<Longrightarrow> p \<in> set ps
     \<Longrightarrow> fst (copy_config bundle ps t) (components p) \<noteq> None"
proof (induction ps arbitrary: t)
  case Nil
  then show ?case by simp
next
  case (Cons a ps)
  from Cons.prems(1) obtain n where n: "bundle (components a) = Some n"
    by (cases "bundle (components a)") auto
  show ?case
  proof (cases "p = a")
    case True
    have "copy_path bundle (components a) t (components a) \<noteq> None"
      using n by (simp add: copy_path_root)
    then show ?thesis using n True by (simp add: copy_config_keeps)
  next
    case False
    with Cons.prems n have "p \<in> set ps"
      and "snd (copy_config bundle ps (copy_path bundle (components a) t)) = Returned"
      by simp_all
    then show ?thesis using n by (simp add: Cons.IH)
  qed
qed

lemma os_mkdir_log:
  "os_mkdir t ''log/'' = (if t [''log''] \<noteq> None then Inl (FileExistsError ''log/'')
                          else Inr (t([''log''] \<mapsto> Dir)))"
  by (simp add: os_mkdir_def components_templates)

lemma os_path_exists_log: "os_path_exists t ''log/'' = (t [''log''] = Some Dir)"
  by (auto simp add: os_path_exists_def components_templates ends_with_slash_def
      split: option.splits node.splits)


lemma copy_templates_log:
  "fst (copy_config bundle [''nextflow.config'', ''conf/'', ''assets/''] t) [''log''] = t [''log'']"
  by (rule copy_config_outside) (simp add: components_templates)

lemma init_unfold:
  "init bundle t =
     (let c = copy_config bundle [''nextflow.config'', ''conf/'', ''assets/''] t in
      if snd c = Returned then
        (if t [''log''] = Some Dir then ([OsPathExists ''log/''], fst c, Returned)
         else if t [''log''] \<noteq> None
         then ([OsPathExists ''log/'', OsMkdir ''log/''], fst c, Raised (FileExistsError ''log/''))
         else ([OsPathExists ''log/'', OsMkdir ''log/''], (fst c)([''log''] \<mapsto> Dir), Returned))
      else ([], fst c, snd c))"
proof -
  obtain t1 out where c: "copy_config bundle [''nextflow.config'', ''conf/'', ''assets/''] t = (t1, out)"
    by (cases "copy_config bundle [''nextflow.config'', ''conf/'', ''assets/''] t")
  have tlog: "t1 [''log''] = t [''log'']"
    using c copy_templates_log [of "bundle" t] by simp
  show ?thesis
  proof (cases out)
    case Returned
    with c tlog show ?thesis
      by (simp add: init_def os_mkdir_log os_path_exists_log del: copy_config.simps)
  next
    case (Raised e)
    with c show ?thesis by (simp add: init_def del: copy_config.simps)
  next
    case (SysExit n)
    with c show ?thesis by (simp add: init_def del: copy_config.simps)
  qed
qed

text \<open>
  C5. After an \<^verbatim>\<open>init\<close> that succeeds, every path of the working directory that was
  created or changed is one of \<^verbatim>\<open>nextflow.config\<close>, \<^verbatim>\<open>conf\<close>, \<^verbatim>\<open>assets\<close> and
  \<^verbatim>\<open>log\<close> or lies below one of them, and the four are there, \<^verbatim>\<open>log\<close> as a directory.
\<close>

theorem init_creates_four_paths:
  assumes "init bundle t = (evs, t', Returned)"
  shows "(\<forall>q. t' q \<noteq> t q \<longrightarrow>
            (\<exists>c \<in> {''nextflow.config'', ''conf'', ''assets'', ''log''}. prefix [c] q))
       \<and> t' [''nextflow.config''] \<noteq> None \<and> t' [''conf''] \<noteq> None
       \<and> t' [''assets''] \<noteq> None \<and> t' [''log''] = Some Dir"
proof -
  let ?ps = "[''nextflow.config'', ''conf/'', ''assets/'']"
  let ?c = "copy_config bundle ?ps t"
  from assms have ret: "snd ?c = Returned"
    by (simp add: init_unfold Let_def del: copy_config.simps split: if_splits)
  from assms ret have t': "t' = fst ?c \<or> t' = (fst ?c)([''log''] \<mapsto> Dir)"
    by (simp add: init_unfold Let_def del: copy_config.simps split: if_splits)
  from assms ret have log: "t' [''log''] = Some Dir"
    using copy_templates_log [of "bundle" t]
    by (auto simp add: init_unfold Let_def simp del: copy_config.simps split: if_splits)
  have roots: "fst ?c (components p) \<noteq> None" if "p \<in> set ?ps" for p
    using ret that by (rule copy_config_roots)
  have r1: "fst ?c [''nextflow.config''] \<noteq> None"
    using roots [of "''nextflow.config''"] by (simp add: components_templates del: copy_config.simps)
  have r2: "fst ?c [''conf''] \<noteq> None"
    using roots [of "''conf/''"] by (simp add: components_templates del: copy_config.simps)
  have r3: "fst ?c [''assets''] \<noteq> None"
    using roots [of "''assets/''"] by (simp add: components_templates del: copy_config.simps)
  have frame: "\<exists>c \<in> {''nextflow.config'', ''conf'', ''assets'', ''log''}. prefix [c] q"
    if changed: "t' q \<noteq> t q" for q
  proof (cases "q = [''log'']")
    case True
    then show ?thesis by simp
  next
    case False
    with t' have "t' q = fst ?c q" by auto
    with changed have "fst ?c q \<noteq> t q" by simp
    then have "\<not> (\<forall>p \<in> set ?ps. \<not> prefix (components p) q)"
      using copy_config_outside [of ?ps q "bundle" t] by blast
    then show ?thesis by (auto simp add: components_templates)
  qed
  from frame r1 r2 r3 log t' show ?thesis
    by (auto simp del: copy_config.simps)
qed


theorem init_creates_four_paths_witness:
  "snd (snd (init [ [''nextflow.config''] \<mapsto> File ''params {}'', [''conf''] \<mapsto> Dir,
                   [''conf'', ''slurm.config''] \<mapsto> File ''process {}'', [''assets''] \<mapsto> Dir]
                  [ [''data.csv''] \<mapsto> File ''a,b''])) = Returned
   \<and> fst (snd (init [ [''nextflow.config''] \<mapsto> File ''params {}'', [''conf''] \<mapsto> Dir,
                   [''conf'', ''slurm.config''] \<mapsto> File ''process {}'', [''assets''] \<mapsto> Dir]
                  [ [''data.csv''] \<mapsto> File ''a,b''])) [''log''] = Some Dir
   \<and> fst (snd (init [ [''nextflow.config''] \<mapsto> File ''params {}'', [''conf''] \<mapsto> Dir,
                   [''conf'', ''slurm.config''] \<mapsto> File ''process {}'', [''assets''] \<mapsto> Dir]
                  [ [''data.csv''] \<mapsto> File ''a,b''])) [''data.csv''] = Some (File ''a,b'')
   \<and> fst (snd (init [ [''nextflow.config''] \<mapsto> File ''params {}'', [''conf''] \<mapsto> Dir,
                   [''conf'', ''slurm.config''] \<mapsto> File ''process {}'', [''assets''] \<mapsto> Dir]
                  [ [''data.csv''] \<mapsto> File ''a,b''])) [''main.nf''] = None"
proof -
  let ?b = "[ [''nextflow.config''] \<mapsto> File ''params {}'', [''conf''] \<mapsto> Dir,
             [''conf'', ''slurm.config''] \<mapsto> File ''process {}'', [''assets''] \<mapsto> Dir]"
  let ?t = "[ [''data.csv''] \<mapsto> File ''a,b'']"
  have ret: "snd (snd (init ?b ?t)) = Returned"
    by (simp add: init_def components_def os_path_exists_def os_mkdir_def copy_path_def)
  then have "init ?b ?t = (fst (init ?b ?t), fst (snd (init ?b ?t)), Returned)"
    by (metis prod.collapse)
  from init_creates_four_paths [OF this]
  have frame: "\<forall>q. fst (snd (init ?b ?t)) q \<noteq> ?t q \<longrightarrow>
            (\<exists>c \<in> {''nextflow.config'', ''conf'', ''assets'', ''log''}. prefix [c] q)"
    and log: "fst (snd (init ?b ?t)) [''log''] = Some Dir"
    by blast+
  have "\<not> (\<exists>c \<in> {''nextflow.config'', ''conf'', ''assets'', ''log''}. prefix [c] [''data.csv''])"
    by simp
  with frame have data: "fst (snd (init ?b ?t)) [''data.csv''] = ?t [''data.csv'']"
    by blast
  have "\<not> (\<exists>c \<in> {''nextflow.config'', ''conf'', ''assets'', ''log''}. prefix [c] [''main.nf''])"
    by simp
  with frame have main: "fst (snd (init ?b ?t)) [''main.nf''] = ?t [''main.nf'']"
    by blast
  from ret log data main show ?thesis by simp
qed

lemma copy_path_fixed:
  assumes "\<And>q n. prefix cs q \<Longrightarrow> bundle q = Some n \<Longrightarrow> t q = Some n"
  shows "copy_path bundle cs t = t"
proof
  fix q
  show "copy_path bundle cs t q = t q"
    using assms [of q] by (simp add: copy_path_def split: option.splits)
qed

lemma copy_config_fixed:
  assumes "\<And>p. p \<in> set ps \<Longrightarrow> bundle (components p) \<noteq> None"
    and "\<And>p q n. p \<in> set ps \<Longrightarrow> prefix (components p) q \<Longrightarrow> bundle q = Some n \<Longrightarrow> t q = Some n"
  shows "copy_config bundle ps t = (t, Returned)"
  using assms
proof (induction ps)
  case Nil
  show ?case by simp
next
  case (Cons p ps)
  from Cons.prems(1) [of p] obtain n where n: "bundle (components p) = Some n"
    by auto
  have fixed: "copy_path bundle (components p) t = t"
    by (rule copy_path_fixed) (rule Cons.prems(2) [of p], simp_all)
  have "copy_config bundle ps t = (t, Returned)"
  proof (rule Cons.IH)
    fix p' assume "p' \<in> set ps"
    then show "bundle (components p') \<noteq> None" using Cons.prems(1) [of p'] by simp
  next
    fix p' q n' assume "p' \<in> set ps" "prefix (components p') q" "bundle q = Some n'"
    then show "t q = Some n'" using Cons.prems(2) [of p' q n'] by simp
  qed
  with n fixed show ?case by simp
qed

lemma copy_path_agrees:
  "bundle q = Some n \<Longrightarrow> prefix cs q \<or> t q = Some n \<Longrightarrow> copy_path bundle cs t q = Some n"
  by (auto simp add: copy_path_def)

lemma copy_config_agrees:
  assumes "snd (copy_config bundle ps t) = Returned" and "bundle q = Some n"
    and "(\<exists>p \<in> set ps. prefix (components p) q) \<or> t q = Some n"
  shows "fst (copy_config bundle ps t) q = Some n"
  using assms
proof (induction ps arbitrary: t)
  case Nil
  then show ?case by simp
next
  case (Cons p ps)
  from Cons.prems(1) obtain m where m: "bundle (components p) = Some m"
    by (cases "bundle (components p)") auto
  with Cons.prems(1) have ret: "snd (copy_config bundle ps (copy_path bundle (components p) t)) = Returned"
    by simp
  from Cons.prems(3) have "(\<exists>p' \<in> set ps. prefix (components p') q)
      \<or> copy_path bundle (components p) t q = Some n"
    using copy_path_agrees [of "bundle" q n "components p" t] Cons.prems(2) by auto
  with ret Cons.prems(2)
  have "fst (copy_config bundle ps (copy_path bundle (components p) t)) q = Some n"
    by (rule Cons.IH)
  with m show ?case by simp
qed

text \<open>
  C6. In an \<^verbatim>\<open>init\<close> that succeeds, \<^verbatim>\<open>os.mkdir\<close> is called for \<^verbatim>\<open>log/\<close> exactly
  when the working directory had no directory \<^verbatim>\<open>log\<close>; and an \<^verbatim>\<open>init\<close> run right
  after it succeeds too, does not call \<^verbatim>\<open>os.mkdir\<close>, and leaves the working directory
  as the first run left it.
\<close>

theorem init_log_iff_absent:
  assumes "init bundle t = (evs, t1, Returned)"
  shows "(OsMkdir ''log/'' \<in> set evs) = (\<not> os_path_exists t ''log/'')
       \<and> init bundle t1 = ([OsPathExists ''log/''], t1, Returned)"
proof -
  let ?ps = "[''nextflow.config'', ''conf/'', ''assets/'']"
  let ?c = "copy_config bundle ?ps t"
  from assms have ret: "snd ?c = Returned"
    by (simp add: init_unfold Let_def del: copy_config.simps split: if_splits)
  from assms ret have mk: "(OsMkdir ''log/'' \<in> set evs) = (\<not> os_path_exists t ''log/'')"
    by (auto simp add: init_unfold os_path_exists_log Let_def simp del: copy_config.simps
        split: if_splits)
  from assms ret have t1: "t1 = fst ?c \<or> t1 = (fst ?c)([''log''] \<mapsto> Dir)"
    by (simp add: init_unfold Let_def del: copy_config.simps split: if_splits)
  from assms ret have log: "t1 [''log''] = Some Dir"
    using copy_templates_log [of "bundle" t]
    by (auto simp add: init_unfold Let_def simp del: copy_config.simps split: if_splits)
  have present: "bundle (components p) \<noteq> None" if "p \<in> set ?ps" for p
    using ret that copy_config_Returned [of "bundle" ?ps t] by blast
  have agrees: "t1 q = Some n"
    if p: "p \<in> set ?ps" and q: "prefix (components p) q" and n: "bundle q = Some n" for p q n
  proof -
    from p q have "q \<noteq> [''log'']" by (auto simp add: components_templates)
    with t1 have "t1 q = fst ?c q" by auto
    moreover have "fst ?c q = Some n"
      using ret n p q by (intro copy_config_agrees) auto
    ultimately show ?thesis by simp
  qed
  have again: "copy_config bundle ?ps t1 = (t1, Returned)"
    using present agrees by (rule copy_config_fixed)
  have "init bundle t1 = ([OsPathExists ''log/''], t1, Returned)"
    using again log by (simp add: init_unfold del: copy_config.simps)
  with mk show ?thesis by simp
qed


theorem init_log_iff_absent_witness:
  "\<not> os_path_exists Map.empty ''log/''
   \<and> OsMkdir ''log/'' \<in> set (fst (init
         [ [''nextflow.config''] \<mapsto> File ''params {}'', [''conf''] \<mapsto> Dir, [''assets''] \<mapsto> Dir]
         Map.empty))
   \<and> init [ [''nextflow.config''] \<mapsto> File ''params {}'', [''conf''] \<mapsto> Dir, [''assets''] \<mapsto> Dir]
        (fst (snd (init
           [ [''nextflow.config''] \<mapsto> File ''params {}'', [''conf''] \<mapsto> Dir, [''assets''] \<mapsto> Dir]
           Map.empty)))
      = ([OsPathExists ''log/''],
         fst (snd (init
           [ [''nextflow.config''] \<mapsto> File ''params {}'', [''conf''] \<mapsto> Dir, [''assets''] \<mapsto> Dir]
           Map.empty)),
         Returned)"
proof -
  let ?b = "[ [''nextflow.config''] \<mapsto> File ''params {}'', [''conf''] \<mapsto> Dir, [''assets''] \<mapsto> Dir]"
  let ?t = "Map.empty :: tree"
  have absent: "\<not> os_path_exists ?t ''log/''"
    by (simp add: os_path_exists_def)
  have "snd (snd (init ?b ?t)) = Returned"
    by (simp add: init_def components_def os_path_exists_def os_mkdir_def copy_path_def)
  then have "init ?b ?t = (fst (init ?b ?t), fst (snd (init ?b ?t)), Returned)"
    by (metis prod.collapse)
  from init_log_iff_absent [OF this] absent show ?thesis
    by simp
qed

section \<open>Properties of the command group\<close>

text \<open>
  C7. The help of \<^verbatim>\<open>cli\<close> lists the two commands as they were registered,
  \<^verbatim>\<open>run\<close> before \<^verbatim>\<open>init\<close>, which is not the alphabetical listing
  (\<^verbatim>\<open>init\<close> before \<^verbatim>\<open>run\<close>).
\<close>

theorem cli_lists_run_then_init:
  "list_commands cli = [''run'', ''init'']
   \<and> list_commands_sorted cli = [''init'', ''run'']
   \<and> list_commands cli \<noteq> list_commands_sorted cli"
  by (simp add: list_commands_def list_commands_sorted_def cli_def add_command_def
      run_command_def init_command_def)

end
